theory Spec2Isabelle
  imports Main "HOL-Library.Word" "HOL-Library.AList" "HOL-Library.Sublist"
begin

section \<open>Data model\<close>

text \<open>
  The Go side of pulumist: the value codec (\<open>convertProtoValueToInterface\<close>,
  \<open>convertInterfaceToProtoValue\<close>, \<open>convertInterfaceToPulumiValue\<close>), the reference
  resolver (\<open>resolveValue\<close>, \<open>getNestedValue\<close>), the deployment program
  (\<open>createDeploymentProgram\<close>), the boundary operations and the framing of responses
  and events.

  A Go \<open>map[string]T\<close> inside a value is an association list read with \<^const>\<open>map_of\<close>;
  the order of its entries stands for the order in which a \<open>range\<close> loop happens to
  visit them. Strings are byte strings, as Go's are.
\<close>

type_synonym byte = "8 word"

text \<open>A \<open>float64\<close> is carried as its 64-bit IEEE pattern: the codec only moves it.\<close>

type_synonym float64 = "64 word"

text \<open>
  \<open>*pb.Value\<close>: \<open>PbNil\<close> is the nil pointer, \<open>PbUnset\<close> a message whose oneof holds
  no known case; the other constructors are the cases of the oneof. The \<open>ValueList\<close> and
  \<open>ValueMap\<close> messages inside a list or map case are present (as the decoder and
  \<open>convertInterfaceToProtoValue\<close> build them).
\<close>

datatype pbValue =
    PbNil
  | PbUnset
  | StringValue string
  | IntValue "64 word"
  | DoubleValue float64
  | BoolValue bool
  | ListValue "pbValue list"
  | MapValue "(string \<times> pbValue) list"
  | BytesValue "byte list"

text \<open>
  The \<open>pulumi.Output\<close> values the program stores. \<open>AllApply i props\<close> is
  \<open>pulumi.All(resource.ID()).ApplyT(f)\<close> of \<open>createDeploymentProgram\<close>, for a resource
  whose ID resolves to \<open>i\<close> and whose closure \<open>f\<close> captured \<open>res.Properties = props\<close>.
  \<open>IDOutput i\<close> is \<open>resource.ID()\<close>; \<open>MapOutput m\<close> is \<open>m\<close> asserted to
  \<open>pulumi.MapOutput\<close>; \<open>AnyOutput m path\<close> is \<open>m.ApplyT(g)\<close> of \<open>resolveValue\<close>, whose
  closure \<open>g\<close> captured \<open>propertyPath = path\<close>. The closure \<open>f\<close> reads the \<open>res\<close> of
  its own turn of the loop (loop variables as from Go 1.22). An output is taken when its
  ID is known, as in an update; in a preview the ID stays unknown and no closure runs.
\<close>

datatype allApply = AllApply string "(string \<times> pbValue) list"

datatype pulumiOutput =
    IDOutput string
  | MapOutput allApply
  | AnyOutput allApply string

text \<open>
  Go's \<open>interface{}\<close>, with the dynamic types the type switches of the source tell apart.
  \<open>GoInt\<close> is \<open>int\<close> (64 bits), \<open>Float32 x\<close> a \<open>float32\<close> given by the \<open>float64\<close> of
  the same value, \<open>ID\<close> a \<open>pulumi.ID\<close>, \<open>Out\<close> a \<open>pulumi.Output\<close>, and \<open>Other t\<close> a
  value of any other dynamic type, named by \<open>t\<close>.
\<close>

datatype any =
    NilValue
  | Str string
  | GoInt "64 word"
  | Int32 "32 word"
  | Int64 "64 word"
  | Float32 float64
  | Float64 float64
  | Bool bool
  | Slice "any list"
  | GoMap "(string \<times> any) list"
  | Bytes "byte list"
  | ID string
  | Out pulumiOutput
  | Other string

section \<open>Value codec\<close>

text \<open>\<open>convertProtoValueToInterface\<close>: a nil pointer and an unknown case give nil.\<close>

primrec convertProtoValueToInterface :: "pbValue \<Rightarrow> any" where
  "convertProtoValueToInterface PbNil = NilValue"
| "convertProtoValueToInterface (StringValue s) = Str s"
| "convertProtoValueToInterface (IntValue n) = Int64 n"
| "convertProtoValueToInterface (DoubleValue x) = Float64 x"
| "convertProtoValueToInterface (BoolValue b) = Bool b"
| "convertProtoValueToInterface (ListValue vs) = Slice (map convertProtoValueToInterface vs)"
| "convertProtoValueToInterface (MapValue fs) =
     GoMap (map (map_prod id convertProtoValueToInterface) fs)"
| "convertProtoValueToInterface (BytesValue bs) = Bytes bs"
| "convertProtoValueToInterface PbUnset = NilValue"

text \<open>
  \<open>convertInterfaceToProtoValue\<close>. \<open>fmt_v\<close> is \<open>fmt\<close>'s rendering of a value under the
  verb \<open>%v\<close>; the format string of the fallback is \<open>"%value"\<close>, that is \<open>%v\<close> followed
  by the letters \<open>alue\<close>. \<open>int\<close> and \<open>int32\<close> widen to \<open>int64\<close> with their sign.
\<close>

primrec convertInterfaceToProtoValue :: "(any \<Rightarrow> string) \<Rightarrow> any \<Rightarrow> pbValue" where
  "convertInterfaceToProtoValue fmt_v NilValue = PbNil"
| "convertInterfaceToProtoValue fmt_v (Str s) = StringValue s"
| "convertInterfaceToProtoValue fmt_v (GoInt n) = IntValue n"
| "convertInterfaceToProtoValue fmt_v (Int32 n) = IntValue (scast n)"
| "convertInterfaceToProtoValue fmt_v (Int64 n) = IntValue n"
| "convertInterfaceToProtoValue fmt_v (Float32 x) = DoubleValue x"
| "convertInterfaceToProtoValue fmt_v (Float64 x) = DoubleValue x"
| "convertInterfaceToProtoValue fmt_v (Bool b) = BoolValue b"
| "convertInterfaceToProtoValue fmt_v (Slice vs) =
     ListValue (map (convertInterfaceToProtoValue fmt_v) vs)"
| "convertInterfaceToProtoValue fmt_v (GoMap fs) =
     MapValue (map (map_prod id (convertInterfaceToProtoValue fmt_v)) fs)"
| "convertInterfaceToProtoValue fmt_v (Bytes bs) = BytesValue bs"
| "convertInterfaceToProtoValue fmt_v (ID i) = StringValue (fmt_v (ID i) @ ''alue'')"
| "convertInterfaceToProtoValue fmt_v (Out out) = StringValue (fmt_v (Out out) @ ''alue'')"
| "convertInterfaceToProtoValue fmt_v (Other t) = StringValue (fmt_v (Other t) @ ''alue'')"

text \<open>
  The values of the spec's DynamicValue: null, string, int64, float64, bool, bytes, and
  lists and maps of these.
\<close>

primrec representable :: "any \<Rightarrow> bool" where
  "representable NilValue = True"
| "representable (Str s) = True"
| "representable (GoInt n) = False"
| "representable (Int32 n) = False"
| "representable (Int64 n) = True"
| "representable (Float32 x) = False"
| "representable (Float64 x) = True"
| "representable (Bool b) = True"
| "representable (Slice vs) = list_all id (map representable vs)"
| "representable (GoMap fs) = list_all snd (map (map_prod id representable) fs)"
| "representable (Bytes bs) = True"
| "representable (ID i) = False"
| "representable (Out out) = False"
| "representable (Other t) = False"

text \<open>
  \<open>pulumi.Input\<close>, as \<open>convertInterfaceToPulumiValue\<close> builds it. A \<open>pulumi.Output\<close>
  and a \<open>pulumi.ID\<close> are inputs already and pass through; every other dynamic type,
  nil included, is wrapped by \<open>pulumi.Any\<close>.
\<close>

datatype pulumiInput =
    PString string
  | PFloat64 float64
  | PBool bool
  | PArray "pulumiInput list"
  | PMap "(string \<times> pulumiInput) list"
  | POutput pulumiOutput
  | PID string
  | PAny any

primrec convertInterfaceToPulumiValue :: "any \<Rightarrow> pulumiInput" where
  "convertInterfaceToPulumiValue (Str s) = PString s"
| "convertInterfaceToPulumiValue (Float64 x) = PFloat64 x"
| "convertInterfaceToPulumiValue (Bool b) = PBool b"
| "convertInterfaceToPulumiValue (Slice vs) = PArray (map convertInterfaceToPulumiValue vs)"
| "convertInterfaceToPulumiValue (GoMap fs) =
     PMap (map (map_prod id convertInterfaceToPulumiValue) fs)"
| "convertInterfaceToPulumiValue (Out out) = POutput out"
| "convertInterfaceToPulumiValue (ID i) = PID i"
| "convertInterfaceToPulumiValue NilValue = PAny NilValue"
| "convertInterfaceToPulumiValue (GoInt n) = PAny (GoInt n)"
| "convertInterfaceToPulumiValue (Int32 n) = PAny (Int32 n)"
| "convertInterfaceToPulumiValue (Int64 n) = PAny (Int64 n)"
| "convertInterfaceToPulumiValue (Float32 x) = PAny (Float32 x)"
| "convertInterfaceToPulumiValue (Bytes bs) = PAny (Bytes bs)"
| "convertInterfaceToPulumiValue (Other t) = PAny (Other t)"

section \<open>Reference resolver\<close>

text \<open>\<open>strings.Split(s, ".")\<close>: the segments between the dots, at least one.\<close>

fun splitAcc :: "string \<Rightarrow> string \<Rightarrow> string list" where
  "splitAcc acc [] = [rev acc]"
| "splitAcc acc (c # cs) =
     (if c = CHR ''.'' then rev acc # splitAcc [] cs else splitAcc (c # acc) cs)"

definition stringsSplit :: "string \<Rightarrow> string list" where
  "stringsSplit s = splitAcc [] s"

text \<open>
  The regular expression \<^verbatim>\<open>\$\{([^.]+)\.([^}]+)\}\<close> tried at the start of a string. The
  first group cannot hold a dot and is followed by one, so it runs to the first dot; the
  second cannot hold a closing brace and is followed by one, so it runs to the first
  closing brace; both are non-empty. The answer is the two groups and the text after the
  match. The delimiters are ASCII, so matching bytes and matching runes agree.
\<close>

definition matchAt :: "string \<Rightarrow> (string \<times> string \<times> string) option" where
  "matchAt s =
     (case s of
        c1 # c2 # r \<Rightarrow>
          if c1 = CHR ''$'' \<and> c2 = CHR ''{'' then
            (case dropWhile (\<lambda>c. c \<noteq> CHR ''.'') r of
               [] \<Rightarrow> None
             | _ # r1 \<Rightarrow>
                 (case dropWhile (\<lambda>c. c \<noteq> CHR ''}'') r1 of
                    [] \<Rightarrow> None
                  | _ # r2 \<Rightarrow>
                      let resourceName = takeWhile (\<lambda>c. c \<noteq> CHR ''.'') r;
                          propertyPath = takeWhile (\<lambda>c. c \<noteq> CHR ''}'') r1
                      in if resourceName = [] \<or> propertyPath = [] then None
                         else Some (resourceName, propertyPath, r2)))
          else None
      | _ \<Rightarrow> None)"

text \<open>
  \<open>re.FindAllStringSubmatch(v, -1)\<close>: the leftmost match, then the leftmost match in
  what follows it, and so on; of each match the two groups.
\<close>

function FindAllStringSubmatch :: "string \<Rightarrow> (string \<times> string) list" where
  "FindAllStringSubmatch [] = []"
| "FindAllStringSubmatch (c # cs) =
     (case matchAt (c # cs) of
        Some (resourceName, propertyPath, rest) \<Rightarrow>
          (resourceName, propertyPath) # FindAllStringSubmatch rest
      | None \<Rightarrow> FindAllStringSubmatch cs)"
  by pat_completeness auto
termination
proof (relation "measure length")
  show "wf (measure length)" by simp
next
  fix c :: char and cs :: string
  show "(cs, c # cs) \<in> measure length" by simp
next
  fix c :: char and cs :: string and m resourceName y propertyPath rest
  assume m: "matchAt (c # cs) = Some m" "(resourceName, y) = m" "(propertyPath, rest) = y"
  have le: "length (dropWhile P xs) \<le> length xs" for P and xs :: string
    by (rule length_dropWhile_le)
  from m have "matchAt (c # cs) = Some (resourceName, propertyPath, rest)" by simp
  then obtain c2 r x r1 z where s: "cs = c2 # r"
    and d1: "dropWhile (\<lambda>c. c \<noteq> CHR ''.'') r = x # r1"
    and d2: "dropWhile (\<lambda>c. c \<noteq> CHR ''}'') r1 = z # rest"
    by (auto simp: matchAt_def Let_def split: list.splits if_splits)
  have "length rest < length r1" using le [of "\<lambda>c. c \<noteq> CHR ''}''" r1] d2 by simp
  moreover have "length r1 < length r" using le [of "\<lambda>c. c \<noteq> CHR ''.''" r] d1 by simp
  ultimately show "(rest, c # cs) \<in> measure length" using s by simp
qed

text \<open>
  \<open>getNestedValue\<close>: the loop over the parts of the path, \<open>current\<close> being the map
  reached so far. The last equation's first line is the \<open>return nil\<close> after the loop.
\<close>

fun getNestedLoop :: "(string \<times> any) list \<Rightarrow> string list \<Rightarrow> any" where
  "getNestedLoop current [] = NilValue"
| "getNestedLoop current (part # rest) =
     (case map_of current part of
        Some val \<Rightarrow>
          if rest = [] then val
          else (case val of GoMap nextMap \<Rightarrow> getNestedLoop nextMap rest | _ \<Rightarrow> NilValue)
      | None \<Rightarrow> NilValue)"

definition getNestedValue :: "(string \<times> any) list \<Rightarrow> string \<Rightarrow> any" where
  "getNestedValue object path = getNestedLoop object (stringsSplit path)"

text \<open>
  What an output resolves to. The closure of \<open>AllApply\<close> copies the converted input
  properties into a fresh map and then stores the ID under \<open>"id"\<close>; the closure of
  \<open>AnyOutput\<close> calls \<open>getNestedValue\<close> on the resolved map.
\<close>

fun awaitMap :: "allApply \<Rightarrow> (string \<times> any) list" where
  "awaitMap (AllApply i props) =
     AList.update ''id'' (ID i) (map (map_prod id convertProtoValueToInterface) props)"

fun await :: "pulumiOutput \<Rightarrow> any" where
  "await (IDOutput i) = ID i"
| "await (MapOutput m) = GoMap (awaitMap m)"
| "await (AnyOutput m path) = getNestedValue (awaitMap m) path"

text \<open>
  A failed type assertion \<open>resourceOutput.(pulumi.MapOutput)\<close> panics.
\<close>

datatype goPanic = InterfaceConversion

type_synonym outputs = "string \<rightharpoonup> pulumiOutput"

text \<open>
  One turn of the loop over the matches in \<open>resolveValue\<close>: \<open>Some\<close> when the turn
  returns (or panics), \<open>None\<close> when it falls through to the next match.
\<close>

definition resolveMatch :: "outputs \<Rightarrow> string \<times> string \<Rightarrow> (goPanic + pulumiOutput) option" where
  "resolveMatch resourceOutputs match =
     (let resourceName = fst match; propertyPath = snd match;
          outputKey = resourceName @ ''.'' @ propertyPath
      in case resourceOutputs outputKey of
           Some output \<Rightarrow> Some (Inr output)
         | None \<Rightarrow>
             let pathParts = stringsSplit propertyPath
             in case (if length pathParts > 1
                      then resourceOutputs (resourceName @ ''.'' @ hd pathParts) else None) of
                  Some rootOutput \<Rightarrow> Some (Inr rootOutput)
                | None \<Rightarrow>
                    (case resourceOutputs resourceName of
                       Some (MapOutput m) \<Rightarrow> Some (Inr (AnyOutput m propertyPath))
                     | Some _ \<Rightarrow> Some (Inl InterfaceConversion)
                     | None \<Rightarrow> None))"

fun resolveMatches :: "outputs \<Rightarrow> (string \<times> string) list \<Rightarrow> (goPanic + pulumiOutput) option" where
  "resolveMatches resourceOutputs [] = None"
| "resolveMatches resourceOutputs (match # matches) =
     (case resolveMatch resourceOutputs match of
        Some r \<Rightarrow> Some r
      | None \<Rightarrow> resolveMatches resourceOutputs matches)"

text \<open>
  \<open>resolveValue\<close>, with the loops of its list and map cases as \<open>resolveSlice\<close> and
  \<open>resolveFields\<close>.
\<close>

fun resolveValue :: "any \<Rightarrow> outputs \<Rightarrow> goPanic + any"
  and resolveSlice :: "any list \<Rightarrow> outputs \<Rightarrow> goPanic + any list"
  and resolveFields :: "(string \<times> any) list \<Rightarrow> outputs \<Rightarrow> goPanic + (string \<times> any) list"
where
  "resolveValue (Str v) resourceOutputs =
     (let matches = FindAllStringSubmatch v
      in if matches = [] then Inr (Str v)
         else (case resolveMatches resourceOutputs matches of
                 Some (Inr output) \<Rightarrow> Inr (Out output)
               | Some (Inl p) \<Rightarrow> Inl p
               | None \<Rightarrow> Inr (Str v)))"
| "resolveValue (GoMap fs) resourceOutputs =
     (case resolveFields fs resourceOutputs of
        Inl p \<Rightarrow> Inl p | Inr resolved \<Rightarrow> Inr (GoMap resolved))"
| "resolveValue (Slice vs) resourceOutputs =
     (case resolveSlice vs resourceOutputs of
        Inl p \<Rightarrow> Inl p | Inr resolved \<Rightarrow> Inr (Slice resolved))"
| "resolveValue NilValue resourceOutputs = Inr NilValue"
| "resolveValue (GoInt n) resourceOutputs = Inr (GoInt n)"
| "resolveValue (Int32 n) resourceOutputs = Inr (Int32 n)"
| "resolveValue (Int64 n) resourceOutputs = Inr (Int64 n)"
| "resolveValue (Float32 x) resourceOutputs = Inr (Float32 x)"
| "resolveValue (Float64 x) resourceOutputs = Inr (Float64 x)"
| "resolveValue (Bool b) resourceOutputs = Inr (Bool b)"
| "resolveValue (Bytes bs) resourceOutputs = Inr (Bytes bs)"
| "resolveValue (ID i) resourceOutputs = Inr (ID i)"
| "resolveValue (Out out) resourceOutputs = Inr (Out out)"
| "resolveValue (Other t) resourceOutputs = Inr (Other t)"
| "resolveSlice [] resourceOutputs = Inr []"
| "resolveSlice (item # items) resourceOutputs =
     (case resolveValue item resourceOutputs of
        Inl p \<Rightarrow> Inl p
      | Inr r \<Rightarrow>
          (case resolveSlice items resourceOutputs of
             Inl p \<Rightarrow> Inl p | Inr rs \<Rightarrow> Inr (r # rs)))"
| "resolveFields [] resourceOutputs = Inr []"
| "resolveFields (kv # fs) resourceOutputs =
     (case resolveValue (snd kv) resourceOutputs of
        Inl p \<Rightarrow> Inl p
      | Inr r \<Rightarrow>
          (case resolveFields fs resourceOutputs of
             Inl p \<Rightarrow> Inl p | Inr rs \<Rightarrow> Inr ((fst kv, r) # rs)))"

text \<open>\<open>resolveReferences\<close> runs the loop of the map case on the property bag.\<close>

definition resolveReferences :: "(string \<times> any) list \<Rightarrow> outputs \<Rightarrow> goPanic + (string \<times> any) list" where
  "resolveReferences properties resourceOutputs = resolveFields properties resourceOutputs"

section \<open>Deployment program\<close>

text \<open>\<open>pb.Resource\<close>, \<open>pb.ResourceMetadata\<close> (Op, Urn, Type, New) and \<open>pb.Event\<close>.\<close>

record resource =
  res_Type :: string
  res_Name :: string
  res_Properties :: "(string \<times> pbValue) list"
  res_DependsOn :: "string list"
  res_Provider :: string

datatype resourceMetadata = ResourceMetadata string string string bool

datatype event =
    Prelude "(string \<times> string) list"
  | Diagnostic string string
  | ResourcePre resourceMetadata bool
  | ResourceOutputs resourceMetadata bool
  | ResourceFailed resourceMetadata nat nat
  | Summary bool nat "(string \<times> 32 word) list"

text \<open>\<open>ctx.Stack()\<close> and \<open>ctx.Project()\<close> of the \<open>pulumi.Context\<close>.\<close>

record pulumiContext =
  ctx_Stack :: string
  ctx_Project :: string

text \<open>
  What the program does to the outside, in order: a call of \<open>emitEvent\<close>, a line
  printed by \<open>fmt.Printf\<close>, a call of \<open>ctx.RegisterResource\<close> with the type, the name,
  the inputs and the resources of the \<open>pulumi.DependsOn\<close> option (empty when the option
  is not passed). A registered resource is known by the ID the engine gave it.
\<close>

datatype action =
    EmitEvent event
  | Printf string
  | RegisterResource string string "(string \<times> pulumiInput) list" "string list"

text \<open>The two maps of the program: \<open>resourceMap\<close> and \<open>resourceOutputs\<close>.\<close>

record programState =
  resourceMap :: "string \<rightharpoonup> string"
  resourceOutputs :: outputs

text \<open>How the program ends otherwise than by \<open>return nil\<close>.\<close>

datatype failure = ReturnedError string | Panic goPanic

definition metadata :: "pulumiContext \<Rightarrow> resource \<Rightarrow> resourceMetadata" where
  "metadata ctx res =
     ResourceMetadata ''create''
       (''urn:pulumi::'' @ ctx_Stack ctx @ ''::'' @ ctx_Project ctx @ ''::''
          @ res_Type res @ ''::'' @ res_Name res)
       (res_Type res) True"

text \<open>The loop over \<open>res.DependsOn\<close>: the dependencies found and the warnings printed.\<close>

fun dependsOnLoop :: "(string \<rightharpoonup> string) \<Rightarrow> string \<Rightarrow> string list \<Rightarrow> string list \<times> action list" where
  "dependsOnLoop rmap resName [] = ([], [])"
| "dependsOnLoop rmap resName (depName # depNames) =
     (let (deps, warnings) = dependsOnLoop rmap resName depNames
      in case rmap depName of
           Some depRes \<Rightarrow> (depRes # deps, warnings)
         | None \<Rightarrow>
             (deps,
              Printf (''Warning: Dependency '' @ depName @ '' not found for resource ''
                        @ resName @ [CHR 0x0A]) # warnings))"

text \<open>
  One turn of the loop over the resources. \<open>answer\<close> is what \<open>ctx.RegisterResource\<close>
  answers to this call: \<open>Inl e\<close> an error with text \<open>e\<close>, \<open>Inr i\<close> success, the ID of
  the resource resolving to \<open>i\<close>.
\<close>

definition loopBody ::
  "pulumiContext \<Rightarrow> string + string \<Rightarrow> programState \<Rightarrow> resource
    \<Rightarrow> action list \<times> (failure + programState)" where
  "loopBody ctx answer st res =
     (let pre = EmitEvent (ResourcePre (metadata ctx res) False);
          properties = map (map_prod id convertProtoValueToInterface) (res_Properties res)
      in case resolveReferences properties (resourceOutputs st) of
           Inl p \<Rightarrow> ([pre], Inl (Panic p))
         | Inr resolvedProperties \<Rightarrow>
             let inputs = map (map_prod id convertInterfaceToPulumiValue) resolvedProperties;
                 (deps, warnings) = dependsOnLoop (resourceMap st) (res_Name res) (res_DependsOn res);
                 call = RegisterResource (res_Type res) (res_Name res) inputs deps
             in case answer of
                  Inl err \<Rightarrow>
                    (pre # warnings @ [call, EmitEvent (ResourceFailed (metadata ctx res) 1 0)],
                     Inl (ReturnedError err))
                | Inr rid \<Rightarrow>
                    (pre # warnings @ [call, EmitEvent (ResourceOutputs (metadata ctx res) False)],
                     Inr \<lparr> resourceMap = (resourceMap st)(res_Name res \<mapsto> rid),
                           resourceOutputs = (resourceOutputs st)
                             (res_Name res @ ''.id'' \<mapsto> IDOutput rid,
                              res_Name res \<mapsto> MapOutput (AllApply rid (res_Properties res))) \<rparr>))"

text \<open>
  The loop: \<open>engine n\<close> is the answer to the \<open>n\<close>-th call of \<open>ctx.RegisterResource\<close> in
  the run, \<open>i\<close> the number of calls made so far.
\<close>

fun programLoop ::
  "pulumiContext \<Rightarrow> (nat \<Rightarrow> string + string) \<Rightarrow> nat \<Rightarrow> programState \<Rightarrow> resource list
    \<Rightarrow> action list \<times> (failure + programState)" where
  "programLoop ctx engine i st [] = ([], Inr st)"
| "programLoop ctx engine i st (res # rest) =
     (case loopBody ctx (engine i) st res of
        (acts, Inl f) \<Rightarrow> (acts, Inl f)
      | (acts, Inr st') \<Rightarrow>
          (let (acts', r) = programLoop ctx engine (Suc i) st' rest in (acts @ acts', r)))"

definition initialState :: programState where
  "initialState = \<lparr> resourceMap = Map.empty, resourceOutputs = Map.empty \<rparr>"

text \<open>
  \<open>createDeploymentProgram resources\<close> run on a context: what it does and how it ends
  (\<open>Inr\<close> is \<open>return nil\<close>, given with the final maps).
\<close>

definition createDeploymentProgram ::
  "resource list \<Rightarrow> pulumiContext \<Rightarrow> (nat \<Rightarrow> string + string)
    \<Rightarrow> action list \<times> (failure + programState)" where
  "createDeploymentProgram resources ctx engine = programLoop ctx engine 0 initialState resources"

fun emitted :: "action list \<Rightarrow> event list" where
  "emitted [] = []"
| "emitted (EmitEvent e # acts) = e # emitted acts"
| "emitted (_ # acts) = emitted acts"

section \<open>Boundary: framing, responses, events\<close>

text \<open>\<open>pb.OutputItem\<close>, \<open>pb.PulumiResponse\<close> and \<open>pb.PulumiRequest\<close>.\<close>

record outputItem =
  ResourceName :: string
  OutputName :: string
  Value :: pbValue

record pulumiResponse =
  Success :: bool
  Error :: string
  Outputs :: "outputItem list"

record pulumiRequest =
  ProjectName :: string
  StackName :: string
  Resources :: "resource list"

text \<open>
  What the automation API hands back: the preview result (the change summary is a
  \<open>map[apitype.OpType]int\<close>, a value of another dynamic type), the results of up and
  destroy (output, error output, the summary's message and result, all strings), and
  the \<open>auto.OutputMap\<close>: the name of the map value itself and its entries in the order
  a \<open>range\<close> loop visits them, each \<open>auto.OutputValue\<close> by its name.
\<close>

record previewResult =
  pv_StdOut :: string
  pv_StdErr :: string
  pv_ChangeSummary :: string

record runResult =
  rr_StdOut :: string
  rr_StdErr :: string
  rr_Message :: string
  rr_Result :: string

record outputMap =
  om_Self :: string
  om_Entries :: "(string \<times> string) list"

text \<open>
  Everything outside the Go code, as the answers it gives. An error is the text of its
  \<open>Error()\<close>. \<open>proto.Marshal\<close> returns bytes together with an optional error.
  \<open>w_up\<close> and \<open>w_preview\<close> answer \<open>stack.Up\<close> and \<open>stack.Preview\<close> once the engine
  has run the program, and may depend on how the program ended.
\<close>

record world =
  w_unmarshal :: "byte list \<Rightarrow> string + pulumiRequest"
  w_marshalResponse :: "pulumiResponse \<Rightarrow> byte list \<times> string option"
  w_marshalEvent :: "event \<Rightarrow> byte list \<times> string option"
  w_callback :: bool
  w_mkdirAll :: "string \<Rightarrow> string option"
  w_upsertStack :: "string option"
  w_selectStack :: "string option"
  w_refresh :: "string + string"
  w_engine :: "nat \<Rightarrow> string + string"
  w_preview :: "failure + programState \<Rightarrow> string + previewResult"
  w_up :: "failure + programState \<Rightarrow> string + runResult"
  w_outputs :: "string + outputMap"
  w_destroy :: "string + runResult"
  w_fmt_v :: "any \<Rightarrow> string"

text \<open>
  The length prefix: \<open>byte(n)\<close>, \<open>byte(n >> 8)\<close>, \<open>byte(n >> 16)\<close>, \<open>byte(n >> 24)\<close>
  for the length \<open>n\<close>, a non-negative \<open>int\<close>; \<open>byte\<close> keeps the low eight bits.
\<close>

definition lengthPrefix :: "nat \<Rightarrow> byte list" where
  "lengthPrefix n = [of_nat n, of_nat (drop_bit 8 n), of_nat (drop_bit 16 n), of_nat (drop_bit 24 n)]"

definition frame :: "byte list \<Rightarrow> byte list" where
  "frame payload = lengthPrefix (length payload) @ payload"

definition failedResponse :: "string \<Rightarrow> pulumiResponse" where
  "failedResponse err = \<lparr> Success = False, Error = err, Outputs = [] \<rparr>"

definition okResponse :: "outputItem list \<Rightarrow> pulumiResponse" where
  "okResponse outputs = \<lparr> Success = True, Error = [], Outputs = outputs \<rparr>"

text \<open>
  \<open>createFailedResponse\<close> and \<open>createOkResponse\<close>: the error of \<open>proto.Marshal\<close> is
  dropped and the bytes it returned are framed.
\<close>

definition createFailedResponse :: "world \<Rightarrow> string \<Rightarrow> byte list" where
  "createFailedResponse w err = frame (fst (w_marshalResponse w (failedResponse err)))"

definition createOkResponse :: "world \<Rightarrow> outputItem list \<Rightarrow> byte list" where
  "createOkResponse w outputs = frame (fst (w_marshalResponse w (okResponse outputs)))"

text \<open>
  \<open>emitEvent\<close>: the buffers handed to the callback, none or one. Nothing is handed over
  when no callback is registered or when \<open>proto.Marshal\<close> returns an error.
\<close>

definition emitEvent :: "world \<Rightarrow> event \<Rightarrow> byte list list" where
  "emitEvent w event =
     (if \<not> w_callback w then []
      else case w_marshalEvent w event of
             (eventBytes, Some err) \<Rightarrow> []
           | (eventBytes, None) \<Rightarrow> [frame eventBytes])"

text \<open>What the callback receives over a sequence of \<open>emitEvent\<close> calls.\<close>

definition delivered :: "world \<Rightarrow> event list \<Rightarrow> byte list list" where
  "delivered w events = concat (map (emitEvent w) events)"

section \<open>Boundary operations\<close>

definition stackItem :: "world \<Rightarrow> string \<Rightarrow> any \<Rightarrow> outputItem" where
  "stackItem w name v =
     \<lparr> ResourceName = ''stack'', OutputName = name,
       Value = convertInterfaceToProtoValue (w_fmt_v w) v \<rparr>"

text \<open>
  \<open>ensureWorkingDirectory\<close> creates \<open>./projectName\<close>; its error wraps that of
  \<open>os.MkdirAll\<close>.
\<close>

definition ensureWorkingDirectory :: "world \<Rightarrow> string \<Rightarrow> string option" where
  "ensureWorkingDirectory w projectName =
     (case w_mkdirAll w projectName of
        Some err \<Rightarrow> Some (''failed to create working directory: '' @ err)
      | None \<Rightarrow> None)"

text \<open>
  The operations give the framed response and the events passed to \<open>emitEvent\<close>.
  The engine runs the program once inside \<open>stack.Preview\<close> and \<open>stack.Up\<close>, on a context
  with the stack and project names of the request.
\<close>

definition runProgram :: "world \<Rightarrow> pulumiRequest \<Rightarrow> action list \<times> (failure + programState)" where
  "runProgram w request =
     createDeploymentProgram (Resources request)
       \<lparr> ctx_Stack = StackName request, ctx_Project = ProjectName request \<rparr> (w_engine w)"

definition previewStack :: "world \<Rightarrow> pulumiRequest \<Rightarrow> byte list \<times> event list" where
  "previewStack w request =
     (let (acts, ending) = runProgram w request
      in case w_preview w ending of
           Inl err \<Rightarrow> (createFailedResponse w err, emitted acts)
         | Inr preview \<Rightarrow>
             (createOkResponse w
                [stackItem w ''stdout'' (Str (pv_StdOut preview)),
                 stackItem w ''stderr'' (Str (pv_StdErr preview)),
                 stackItem w ''summary'' (Other (pv_ChangeSummary preview))],
              emitted acts))"

definition deployStack :: "world \<Rightarrow> pulumiRequest \<Rightarrow> byte list \<times> event list" where
  "deployStack w request =
     (let (acts, ending) = runProgram w request
      in case w_up w ending of
           Inl err \<Rightarrow> (createFailedResponse w err, emitted acts)
         | Inr upResult \<Rightarrow>
             (let events = emitted acts @ [Summary False 10 [(''created'', 1)]]
              in case w_outputs w of
                   Inl err \<Rightarrow> (createFailedResponse w err, events)
                 | Inr stackOutputs \<Rightarrow>
                     (createOkResponse w
                        [stackItem w ''stdout'' (Str (rr_StdOut upResult)),
                         stackItem w ''stderr'' (Str (rr_StdErr upResult)),
                         stackItem w ''outputs'' (Other (om_Self stackOutputs)),
                         stackItem w ''summary''
                           (GoMap [(''message'', Str (rr_Message upResult)),
                                   (''result'', Str (rr_Result upResult))])],
                      events)))"

definition processPulumiRequest :: "world \<Rightarrow> byte list \<Rightarrow> bool \<Rightarrow> byte list \<times> event list" where
  "processPulumiRequest w goBytes isDryRun =
     (case w_unmarshal w goBytes of
        Inl err \<Rightarrow> (createFailedResponse w err, [])
      | Inr request \<Rightarrow>
          (case ensureWorkingDirectory w (ProjectName request) of
             Some err \<Rightarrow>
               (createFailedResponse w (''failed to ensure working directory: '' @ err), [])
           | None \<Rightarrow>
               (case w_upsertStack w of
                  Some err \<Rightarrow> (createFailedResponse w err, [])
                | None \<Rightarrow>
                    (let events =
                           [Prelude [],
                            Diagnostic ''info'' ''Refreshing stack to detect drift...'',
                            (case w_refresh w of
                               Inl refreshErr \<Rightarrow>
                                 Diagnostic ''warning'' (''Refresh warning: '' @ refreshErr)
                             | Inr message \<Rightarrow>
                                 Diagnostic ''info'' (''Refresh completed: '' @ message))];
                         (response, more) =
                           (if isDryRun then previewStack w request else deployStack w request)
                     in (response, events @ more)))))"

definition PulumiDynamicPreview :: "world \<Rightarrow> byte list \<Rightarrow> byte list \<times> event list" where
  "PulumiDynamicPreview w request = processPulumiRequest w request True"

definition PulumiDynamicDeploy :: "world \<Rightarrow> byte list \<Rightarrow> byte list \<times> event list" where
  "PulumiDynamicDeploy w request = processPulumiRequest w request False"

definition PulumiDynamicDestroy :: "world \<Rightarrow> byte list \<Rightarrow> byte list \<times> event list" where
  "PulumiDynamicDestroy w goBytes =
     (case w_unmarshal w goBytes of
        Inl err \<Rightarrow> (createFailedResponse w err, [])
      | Inr request \<Rightarrow>
          (case ensureWorkingDirectory w (ProjectName request) of
             Some err \<Rightarrow>
               (createFailedResponse w (''failed to ensure working directory: '' @ err), [])
           | None \<Rightarrow>
               (case w_selectStack w of
                  Some err \<Rightarrow> (createFailedResponse w err, [])
                | None \<Rightarrow>
                    (case w_destroy w of
                       Inl err \<Rightarrow> (createFailedResponse w err, [])
                     | Inr destroyResult \<Rightarrow>
                         (createOkResponse w
                            [stackItem w ''stdout'' (Str (rr_StdOut destroyResult)),
                             stackItem w ''stderr'' (Str (rr_StdErr destroyResult)),
                             stackItem w ''summary''
                               (GoMap [(''message'', Str (rr_Message destroyResult)),
                                       (''result'', Str (rr_Result destroyResult))])],
                          [])))))"

definition PulumiDynamicGetOutputs :: "world \<Rightarrow> byte list \<Rightarrow> byte list \<times> event list" where
  "PulumiDynamicGetOutputs w goBytes =
     (case w_unmarshal w goBytes of
        Inl err \<Rightarrow> (createFailedResponse w err, [])
      | Inr request \<Rightarrow>
          (case ensureWorkingDirectory w (ProjectName request) of
             Some err \<Rightarrow>
               (createFailedResponse w (''failed to ensure working directory: '' @ err), [])
           | None \<Rightarrow>
               (case w_selectStack w of
                  Some err \<Rightarrow> (createFailedResponse w err, [])
                | None \<Rightarrow>
                    (case w_outputs w of
                       Inl err \<Rightarrow> (createFailedResponse w err, [])
                     | Inr outputs \<Rightarrow>
                         (createOkResponse w
                            (map (\<lambda>(name, v). stackItem w name (Other v)) (om_Entries outputs)),
                          [])))))"

section \<open>Notions of the specification\<close>

text \<open>
  A reference token resolves against the stored outputs when one of the three lookups of
  the specification finds a key: the resource name joined by a dot to the whole
  remainder; for a remainder of several segments, the name joined to the first segment;
  the resource name alone.
\<close>

definition spec_token_resolves :: "outputs \<Rightarrow> string \<times> string \<Rightarrow> bool" where
  "spec_token_resolves stored token =
     (let resourceName = fst token; remainder = snd token
      in stored (resourceName @ ''.'' @ remainder) \<noteq> None
         \<or> (length (stringsSplit remainder) > 1
              \<and> stored (resourceName @ ''.'' @ hd (stringsSplit remainder)) \<noteq> None)
         \<or> stored resourceName \<noteq> None)"

text \<open>
  The value at a path: walking the segments through nested maps, with no value when a
  segment is absent or the value reached is not a map. The projection yields that
  value, or null.
\<close>

fun spec_value_at :: "any \<Rightarrow> string list \<Rightarrow> any option" where
  "spec_value_at v [] = Some v"
| "spec_value_at (GoMap m) (segment # segments) =
     (case map_of m segment of Some w \<Rightarrow> spec_value_at w segments | None \<Rightarrow> None)"
| "spec_value_at _ (segment # segments) = None"

definition spec_projection :: "(string \<times> any) list \<Rightarrow> string \<Rightarrow> any" where
  "spec_projection bag path =
     (case spec_value_at (GoMap bag) (stringsSplit path) of Some v \<Rightarrow> v | None \<Rightarrow> NilValue)"

text \<open>
  The value of a little-endian byte sequence, and the envelope of the specification: a
  four-byte little-endian length prefix whose value is the length of the payload,
  followed by exactly the payload.
\<close>

fun littleEndian :: "byte list \<Rightarrow> nat" where
  "littleEndian [] = 0"
| "littleEndian (b # bs) = unat b + 256 * littleEndian bs"

definition spec_framed :: "byte list \<Rightarrow> byte list \<Rightarrow> bool" where
  "spec_framed buffer payload \<longleftrightarrow>
     length buffer = 4 + length payload
     \<and> littleEndian (take 4 buffer) = length payload
     \<and> drop 4 buffer = payload"

section \<open>Invariant and examples\<close>

text \<open>
  The stored outputs under keys without a dot are \<open>pulumi.MapOutput\<close>s: the type
  assertion of \<open>resolveValue\<close> relies on it, and the program keeps it.
\<close>

abbreviation plainKeysHoldMaps :: "outputs \<Rightarrow> bool" where
  "plainKeysHoldMaps outs \<equiv>
     (\<forall>k out. outs k = Some out \<longrightarrow> CHR ''.'' \<notin> set k \<longrightarrow> (\<exists>m. out = MapOutput m))"

text \<open>
  A world for evaluating the operations: the decoder accepts the empty message only, the
  encoder of responses writes the names of the output items, every call of the
  automation API succeeds, and the stack exports one output, \<open>endpoint\<close>.
\<close>

definition exampleWorld :: world where
  "exampleWorld =
     \<lparr> w_unmarshal = (\<lambda>goBytes.
         if goBytes = [] then Inr \<lparr> ProjectName = ''p'', StackName = ''s'', Resources = [] \<rparr>
         else Inl ''proto: cannot parse invalid wire-format data''),
       w_marshalResponse = (\<lambda>response. (map of_char (concat (map OutputName (Outputs response))), None)),
       w_marshalEvent = (\<lambda>event. ([], None)),
       w_callback = True,
       w_mkdirAll = (\<lambda>dir. None),
       w_upsertStack = None,
       w_selectStack = None,
       w_refresh = Inr ''ok'',
       w_engine = (\<lambda>n. Inr ''id''),
       w_preview = (\<lambda>ending. Inr \<lparr> pv_StdOut = ''out'', pv_StdErr = [], pv_ChangeSummary = ''map[]'' \<rparr>),
       w_up = (\<lambda>ending. Inr \<lparr> rr_StdOut = ''out'', rr_StdErr = [], rr_Message = [], rr_Result = ''succeeded'' \<rparr>),
       w_outputs = Inr \<lparr> om_Self = ''map[endpoint:{x false}]'', om_Entries = [(''endpoint'', ''{x false}'')] \<rparr>,
       w_destroy = Inr \<lparr> rr_StdOut = ''out'', rr_StdErr = [], rr_Message = [], rr_Result = ''succeeded'' \<rparr>,
       w_fmt_v = (\<lambda>v. case v of Other t \<Rightarrow> t | _ \<Rightarrow> []) \<rparr>"

definition exampleResource :: "string \<Rightarrow> (string \<times> pbValue) list \<Rightarrow> resource" where
  "exampleResource name props =
     \<lparr> res_Type = ''example:index:Thing'', res_Name = name, res_Properties = props,
       res_DependsOn = [], res_Provider = [] \<rparr>"

section \<open>Round trip of the value codec\<close>

lemma roundtrip_all:
  "(\<And>x. x \<in> set xs \<Longrightarrow> f x = x) \<Longrightarrow> map f xs = xs"
  by (induction xs) auto

text \<open>
  C2. Converting a representable value to the wire representation and back gives the
  value itself.
\<close>

theorem convert_roundtrip:
  "representable v \<Longrightarrow>
   convertProtoValueToInterface (convertInterfaceToProtoValue fmt_v v) = v"
proof (induction v)
  case (Slice vs)
  then show ?case
    by (auto simp: list_all_iff intro!: roundtrip_all)
next
  case (GoMap fs)
  then show ?case
    by (fastforce simp: list_all_iff intro!: roundtrip_all)
qed simp_all

theorem convert_roundtrip_witness:
  "representable (GoMap [(''a'', Slice [Int64 1, Str ''x'', NilValue]), (''b'', Bytes [1])])
   \<and> convertProtoValueToInterface
        (convertInterfaceToProtoValue (\<lambda>v. [])
          (GoMap [(''a'', Slice [Int64 1, Str ''x'', NilValue]), (''b'', Bytes [1])]))
      = GoMap [(''a'', Slice [Int64 1, Str ''x'', NilValue]), (''b'', Bytes [1])]"
proof -
  have h: "representable (GoMap [(''a'', Slice [Int64 1, Str ''x'', NilValue]), (''b'', Bytes [1])])"
    by simp
  show ?thesis using h convert_roundtrip [OF h, of "\<lambda>v. []"] by simp
qed

section \<open>Strings with reference tokens\<close>

lemma resolveMatch_None_iff:
  "resolveMatch outs m = None \<longleftrightarrow> \<not> spec_token_resolves outs m"
  by (auto simp: resolveMatch_def spec_token_resolves_def Let_def
           split: option.splits pulumiOutput.splits if_splits)

lemma resolveMatches_None_iff:
  "resolveMatches outs ms = None \<longleftrightarrow> (\<forall>m \<in> set ms. \<not> spec_token_resolves outs m)"
  by (induction ms) (auto simp: resolveMatch_None_iff [symmetric] split: option.splits)

text \<open>
  C1, as the code has it. \<open>resolveValue\<close> returns a string unchanged exactly when none
  of its tokens resolves against the stored outputs. When a token resolves, or the type
  assertion panics, the result is not the string, whatever literal text surrounds the
  token.
\<close>

theorem resolveValue_string_unchanged_iff:
  "resolveValue (Str s) outs = Inr (Str s)
   \<longleftrightarrow> (\<forall>token \<in> set (FindAllStringSubmatch s). \<not> spec_token_resolves outs token)"
proof (cases "resolveMatches outs (FindAllStringSubmatch s)")
  case None
  then show ?thesis using resolveMatches_None_iff [of outs "FindAllStringSubmatch s"]
    by (simp add: Let_def)
next
  case (Some r)
  then have "FindAllStringSubmatch s \<noteq> []" by auto
  with Some show ?thesis using resolveMatches_None_iff [of outs "FindAllStringSubmatch s"]
    by (auto simp: Let_def split: sum.splits)
qed

theorem resolveValue_string_unchanged_iff_witness:
  "FindAllStringSubmatch ''x${r.id}'' = [(''r'', ''id'')]
   \<and> \<not> spec_token_resolves [''q.id'' \<mapsto> IDOutput ''i1''] (''r'', ''id'')
   \<and> resolveValue (Str ''x${r.id}'') [''q.id'' \<mapsto> IDOutput ''i1''] = Inr (Str ''x${r.id}'')"
  using resolveValue_string_unchanged_iff [of "''x${r.id}''" "[''q.id'' \<mapsto> IDOutput ''i1'']"]
  by (simp add: matchAt_def spec_token_resolves_def stringsSplit_def)

text \<open>
  C1 as stated fails: the string \<open>x${r.id}\<close> holds a token and literal text before it,
  and with an output stored under \<open>r.id\<close> it is replaced by that output.
\<close>

theorem resolveValue_surrounding_text_counterexample:
  "FindAllStringSubmatch ''x${r.id}'' = [(''r'', ''id'')]
   \<and> resolveValue (Str ''x${r.id}'') [''r.id'' \<mapsto> IDOutput ''i1'']
       = Inr (Out (IDOutput ''i1''))
   \<and> resolveValue (Str ''x${r.id}'') [''r.id'' \<mapsto> IDOutput ''i1'']
       \<noteq> Inr (Str ''x${r.id}'')"
  by (simp add: matchAt_def resolveMatch_def)

section \<open>Projection through the whole-resource output\<close>

lemma splitAcc_nonempty: "splitAcc acc s \<noteq> []"
  by (induction acc s rule: splitAcc.induct) auto

lemma stringsSplit_nonempty: "stringsSplit s \<noteq> []"
  by (simp add: stringsSplit_def splitAcc_nonempty)

lemma getNestedLoop_spec:
  "parts \<noteq> [] \<Longrightarrow>
   getNestedLoop m parts = (case spec_value_at (GoMap m) parts of Some v \<Rightarrow> v | None \<Rightarrow> NilValue)"
proof (induction m parts rule: getNestedLoop.induct)
  case (1 current)
  then show ?case by simp
next
  case (2 current part rest)
  show ?case
  proof (cases "map_of current part")
    case None
    then show ?thesis by simp
  next
    case (Some val)
    show ?thesis
    proof (cases "rest = []")
      case True
      with Some show ?thesis by simp
    next
      case False
      then obtain seg segs where rest: "rest = seg # segs" by (cases rest) auto
      show ?thesis
      proof (cases val)
        case (GoMap nextMap)
        with 2 Some False show ?thesis by simp
      qed (use Some rest in simp_all)
    qed
  qed
qed

lemma getNestedValue_spec: "getNestedValue bag path = spec_projection bag path"
  by (simp add: getNestedValue_def spec_projection_def getNestedLoop_spec stringsSplit_nonempty)

lemma resolveMatches_skip:
  "\<forall>m \<in> set pre. \<not> spec_token_resolves outs m \<Longrightarrow>
   resolveMatches outs (pre @ ms) = resolveMatches outs ms"
  by (induction pre) (auto simp: resolveMatch_None_iff [symmetric])

text \<open>
  C4. A token \<open>${r.path}\<close> of a string, the tokens before it not resolving, for which
  the first two lookups fail and the whole-resource output is stored under \<open>r\<close>:
  the string resolves to the deferred projection of that output, and the projection
  resolves to the value at the path in the resolved bag, or to null.
\<close>

theorem whole_resource_projection:
  assumes tokens: "FindAllStringSubmatch s = before @ (r, path) # after"
    and before: "\<forall>token \<in> set before. \<not> spec_token_resolves outs token"
    and a: "outs (r @ ''.'' @ path) = None"
    and b: "length (stringsSplit path) > 1 \<longrightarrow> outs (r @ ''.'' @ hd (stringsSplit path)) = None"
    and c: "outs r = Some (MapOutput bag)"
  shows "resolveValue (Str s) outs = Inr (Out (AnyOutput bag path))
         \<and> await (AnyOutput bag path) = spec_projection (awaitMap bag) path"
proof -
  have "resolveMatch outs (r, path) = Some (Inr (AnyOutput bag path))"
    using a b c by (simp add: resolveMatch_def Let_def)
  then have "resolveMatches outs (FindAllStringSubmatch s) = Some (Inr (AnyOutput bag path))"
    using tokens before by (simp add: resolveMatches_skip)
  then show ?thesis using tokens by (simp add: Let_def getNestedValue_spec)
qed

text \<open>
  The bag of a resource with the input property \<open>a = {b: "x"}\<close>, stored under \<open>r\<close>:
  \<open>${r.a.b}\<close> yields \<open>"x"\<close> and \<open>${r.a.c}\<close> yields null.
\<close>

theorem whole_resource_projection_witness:
  "resolveValue (Str ''${r.a.b}'')
     [''r'' \<mapsto> MapOutput (AllApply ''i'' [(''a'', MapValue [(''b'', StringValue ''x'')])])]
     = Inr (Out (AnyOutput (AllApply ''i'' [(''a'', MapValue [(''b'', StringValue ''x'')])]) ''a.b''))
   \<and> await (AnyOutput (AllApply ''i'' [(''a'', MapValue [(''b'', StringValue ''x'')])]) ''a.b'') = Str ''x''
   \<and> await (AnyOutput (AllApply ''i'' [(''a'', MapValue [(''b'', StringValue ''x'')])]) ''a.c'') = NilValue"
  using whole_resource_projection [of "''${r.a.b}''" "[]" "''r''" "''a.b''" "[]"
      "[''r'' \<mapsto> MapOutput (AllApply ''i'' [(''a'', MapValue [(''b'', StringValue ''x'')])])]"
      "AllApply ''i'' [(''a'', MapValue [(''b'', StringValue ''x'')])]"]
    whole_resource_projection [of "''${r.a.c}''" "[]" "''r''" "''a.c''" "[]"
      "[''r'' \<mapsto> MapOutput (AllApply ''i'' [(''a'', MapValue [(''b'', StringValue ''x'')])])]"
      "AllApply ''i'' [(''a'', MapValue [(''b'', StringValue ''x'')])]"]
  by (simp add: matchAt_def stringsSplit_def spec_projection_def)


section \<open>Framing\<close>

lemma littleEndian_lengthPrefix: "littleEndian (lengthPrefix n) = n mod 2 ^ 32"
proof -
  have b: "unat (of_nat k :: byte) = k mod 256" for k
    by (simp add: unat_of_nat)
  have "littleEndian (lengthPrefix n)
        = n mod 256 + 256 * ((n div 256) mod 256 + 256 * ((n div 65536) mod 256
            + 256 * ((n div 16777216) mod 256)))"
    by (simp add: lengthPrefix_def b drop_bit_eq_div)
  also have "\<dots> = n mod 2 ^ 32"
  proof -
    have s: "m mod (256 * c) = m mod 256 + 256 * ((m div 256) mod c)" for m c :: nat
      by (simp add: mod_mult2_eq)
    have "n mod 2 ^ 32 = n mod (256 * (256 * (256 * 256)))" by simp
    also have "\<dots> = n mod 256 + 256 * ((n div 256) mod (256 * (256 * 256)))"
      by (rule s)
    also have "(n div 256) mod (256 * (256 * 256))
               = (n div 256) mod 256 + 256 * ((n div 256 div 256) mod (256 * 256))"
      by (rule s)
    also have "(n div 256 div 256) mod (256 * 256)
               = (n div 256 div 256) mod 256 + 256 * ((n div 256 div 256 div 256) mod 256)"
      by (rule s)
    finally show ?thesis by (simp add: div_mult2_eq [symmetric])
  qed
  finally show ?thesis .
qed

lemma frame_parts:
  "length (frame payload) = 4 + length payload"
  "take 4 (frame payload) = lengthPrefix (length payload)"
  "drop 4 (frame payload) = payload"
  by (simp_all add: frame_def lengthPrefix_def)

lemma frame_framed: "length payload < 2 ^ 32 \<Longrightarrow> spec_framed (frame payload) payload"
  by (simp add: spec_framed_def frame_parts littleEndian_lengthPrefix)

text \<open>
  C8, as the code has it. A response, failed or successful, and an event handed to the
  callback are framed: four bytes of little-endian length, then the payload, for every
  payload shorter than \<open>2 ^ 32\<close> bytes. (The prefix holds the length modulo \<open>2 ^ 32\<close>,
  lemma \<open>littleEndian_lengthPrefix\<close>.)
\<close>

theorem boundary_framing:
  "(length (fst (w_marshalResponse w (okResponse items))) < 2 ^ 32 \<longrightarrow>
      spec_framed (createOkResponse w items) (fst (w_marshalResponse w (okResponse items))))
   \<and> (length (fst (w_marshalResponse w (failedResponse err))) < 2 ^ 32 \<longrightarrow>
      spec_framed (createFailedResponse w err) (fst (w_marshalResponse w (failedResponse err))))
   \<and> (\<forall>buffer \<in> set (emitEvent w event).
        length (fst (w_marshalEvent w event)) < 2 ^ 32 \<longrightarrow>
        spec_framed buffer (fst (w_marshalEvent w event)))"
proof -
  have "buffer = frame (fst (w_marshalEvent w event))" if "buffer \<in> set (emitEvent w event)" for buffer
    using that by (cases "w_marshalEvent w event") (auto simp: emitEvent_def split: if_splits option.splits)
  then show ?thesis
    unfolding createOkResponse_def createFailedResponse_def using frame_framed by blast
qed

theorem boundary_framing_witness:
  "createOkResponse (exampleWorld \<lparr> w_marshalResponse := (\<lambda>r. ([1, 2, 3], None)) \<rparr>) [] = [3, 0, 0, 0, 1, 2, 3]
   \<and> spec_framed [3, 0, 0, 0, 1, 2, 3] [1, 2, 3]
   \<and> createFailedResponse (exampleWorld \<lparr> w_marshalResponse := (\<lambda>r. ([1, 2, 3], None)) \<rparr>) ''e'' = [3, 0, 0, 0, 1, 2, 3]
   \<and> emitEvent (exampleWorld \<lparr> w_marshalEvent := (\<lambda>r. ([7], None)) \<rparr>) (Prelude []) = [[1, 0, 0, 0, 7]]
   \<and> spec_framed [1, 0, 0, 0, 7] [7]"
  using boundary_framing [of "exampleWorld \<lparr> w_marshalResponse := (\<lambda>r. ([1, 2, 3], None)) \<rparr>" "[]" "''e''" "Prelude []"]
    boundary_framing [of "exampleWorld \<lparr> w_marshalEvent := (\<lambda>r. ([7], None)) \<rparr>" "[]" "''e''" "Prelude []"]
  by (simp add: exampleWorld_def createOkResponse_def createFailedResponse_def emitEvent_def
        frame_def lengthPrefix_def drop_bit_eq_div)

text \<open>
  C8 as stated fails for a payload of \<open>2 ^ 32\<close> bytes: the prefix is zero.
\<close>

theorem boundary_framing_counterexample:
  "createOkResponse (exampleWorld \<lparr> w_marshalResponse := (\<lambda>r. (replicate (2 ^ 32) 0, None)) \<rparr>) []
     = [0, 0, 0, 0] @ replicate (2 ^ 32) 0
   \<and> \<not> spec_framed
        (createOkResponse (exampleWorld \<lparr> w_marshalResponse := (\<lambda>r. (replicate (2 ^ 32) 0, None)) \<rparr>) [])
        (replicate (2 ^ 32) 0)"
proof -
  have "littleEndian (lengthPrefix (2 ^ 32)) = 0"
    by (simp add: littleEndian_lengthPrefix)
  moreover have "lengthPrefix (2 ^ 32) = [0, 0, 0, 0]"
    by (simp add: lengthPrefix_def drop_bit_eq_div)
  ultimately show ?thesis
    by (simp add: createOkResponse_def exampleWorld_def spec_framed_def frame_parts frame_def)
qed

section \<open>Serialization errors on the way out\<close>

text \<open>
  C9. When \<open>proto.Marshal\<close> returns an error for a response, the error is dropped and
  the bytes returned with it, possibly none, are framed: a buffer is still produced. When
  it returns an error for an event, nothing is handed to the callback and the events
  before and after are delivered as usual.
\<close>

theorem serialization_errors_swallowed:
  "(w_marshalResponse w (okResponse items) = (partial, Some e) \<longrightarrow>
      createOkResponse w items = frame partial)
   \<and> (w_marshalResponse w (failedResponse err) = (partial, Some e) \<longrightarrow>
      createFailedResponse w err = frame partial)
   \<and> (w_marshalEvent w event = (partial, Some e) \<longrightarrow>
      emitEvent w event = []
      \<and> delivered w (before @ event # after) = delivered w before @ delivered w after)"
  by (simp add: createOkResponse_def createFailedResponse_def emitEvent_def delivered_def)

text \<open>
  An encoder that fails on every response, returning no bytes, and on the prelude event:
  the response is the frame of an empty payload, and of three events the two others
  reach the callback.
\<close>

theorem serialization_errors_swallowed_witness:
  "createOkResponse (exampleWorld \<lparr> w_marshalResponse := (\<lambda>r. ([], Some ''invalid UTF-8'')) \<rparr>) []
     = [0, 0, 0, 0]
   \<and> createFailedResponse (exampleWorld \<lparr> w_marshalResponse := (\<lambda>r. ([9], Some ''invalid UTF-8'')) \<rparr>) ''e''
     = [1, 0, 0, 0, 9]
   \<and> delivered (exampleWorld \<lparr> w_marshalEvent :=
                    (\<lambda>e. if e = Prelude [] then ([], Some ''x'') else ([7], None)) \<rparr>)
        [Diagnostic ''info'' ''a'', Prelude [], Diagnostic ''info'' ''b'']
     = [[1, 0, 0, 0, 7], [1, 0, 0, 0, 7]]"
  using serialization_errors_swallowed
      [of "exampleWorld \<lparr> w_marshalResponse := (\<lambda>r. ([], Some ''invalid UTF-8'')) \<rparr>"
          "[]" "[]" "''invalid UTF-8''" "''e''" "Prelude []" "[]" "[]"]
    serialization_errors_swallowed
      [of "exampleWorld \<lparr> w_marshalResponse := (\<lambda>r. ([9], Some ''invalid UTF-8'')) \<rparr>"
          "[]" "[9]" "''invalid UTF-8''" "''e''" "Prelude []" "[]" "[]"]
    serialization_errors_swallowed
      [of "exampleWorld \<lparr> w_marshalEvent :=
                    (\<lambda>e. if e = Prelude [] then ([], Some ''x'') else ([7], None)) \<rparr>"
          "[]" "[]" "''x''" "''e''" "Prelude []" "[Diagnostic ''info'' ''a'']" "[Diagnostic ''info'' ''b'']"]
  by (simp add: exampleWorld_def delivered_def emitEvent_def frame_def lengthPrefix_def
        drop_bit_eq_div)

section \<open>Decode errors\<close>

text \<open>
  C6. When the request bytes fail to decode, with error text \<open>e\<close>, each of the four
  operations returns the framed encoding of the failed response carrying \<open>e\<close>, and
  calls \<open>emitEvent\<close> not once.
\<close>

theorem decode_error_response:
  assumes "w_unmarshal w goBytes = Inl e" and "e \<noteq> []"
  shows "PulumiDynamicPreview w goBytes = (frame (fst (w_marshalResponse w (failedResponse e))), [])
         \<and> PulumiDynamicDeploy w goBytes = (frame (fst (w_marshalResponse w (failedResponse e))), [])
         \<and> PulumiDynamicDestroy w goBytes = (frame (fst (w_marshalResponse w (failedResponse e))), [])
         \<and> PulumiDynamicGetOutputs w goBytes = (frame (fst (w_marshalResponse w (failedResponse e))), [])
         \<and> Success (failedResponse e) = False
         \<and> Error (failedResponse e) = e \<and> Error (failedResponse e) \<noteq> []
         \<and> Outputs (failedResponse e) = []
         \<and> delivered w [] = []"
  using assms
  by (simp add: PulumiDynamicPreview_def PulumiDynamicDeploy_def PulumiDynamicDestroy_def
        PulumiDynamicGetOutputs_def processPulumiRequest_def createFailedResponse_def
        failedResponse_def delivered_def)

theorem decode_error_response_witness:
  "w_unmarshal exampleWorld [255] = Inl ''proto: cannot parse invalid wire-format data''
   \<and> PulumiDynamicPreview exampleWorld [255] = ([0, 0, 0, 0], [])
   \<and> PulumiDynamicGetOutputs exampleWorld [255] = ([0, 0, 0, 0], [])
   \<and> Error (failedResponse ''proto: cannot parse invalid wire-format data'')
       = ''proto: cannot parse invalid wire-format data''"
  using decode_error_response [of exampleWorld "[255]" "''proto: cannot parse invalid wire-format data''"]
  by (simp add: exampleWorld_def frame_def lengthPrefix_def)

section \<open>Output items of the operations\<close>

text \<open>
  C7, as the code has it. On success Preview and Destroy answer with the items
  \<open>stdout\<close>, \<open>stderr\<close>, \<open>summary\<close>, Deploy with \<open>stdout\<close>, \<open>stderr\<close>, \<open>outputs\<close>,
  \<open>summary\<close>, and GetOutputs with one item for each exported stack output, named as
  the output is.
\<close>

theorem operation_output_items:
  assumes "w_unmarshal w goBytes = Inr request"
    and "w_mkdirAll w (ProjectName request) = None"
  shows "(w_upsertStack w = None \<and> w_preview w (snd (runProgram w request)) = Inr preview \<longrightarrow>
            (let items = [stackItem w ''stdout'' (Str (pv_StdOut preview)),
                          stackItem w ''stderr'' (Str (pv_StdErr preview)),
                          stackItem w ''summary'' (Other (pv_ChangeSummary preview))]
             in fst (PulumiDynamicPreview w goBytes) = createOkResponse w items
                \<and> map OutputName items = [''stdout'', ''stderr'', ''summary'']))
         \<and> (w_upsertStack w = None \<and> w_up w (snd (runProgram w request)) = Inr upResult
              \<and> w_outputs w = Inr stackOutputs \<longrightarrow>
            (let items = [stackItem w ''stdout'' (Str (rr_StdOut upResult)),
                          stackItem w ''stderr'' (Str (rr_StdErr upResult)),
                          stackItem w ''outputs'' (Other (om_Self stackOutputs)),
                          stackItem w ''summary''
                            (GoMap [(''message'', Str (rr_Message upResult)),
                                    (''result'', Str (rr_Result upResult))])]
             in fst (PulumiDynamicDeploy w goBytes) = createOkResponse w items
                \<and> map OutputName items = [''stdout'', ''stderr'', ''outputs'', ''summary'']))
         \<and> (w_selectStack w = None \<and> w_destroy w = Inr destroyResult \<longrightarrow>
            (let items = [stackItem w ''stdout'' (Str (rr_StdOut destroyResult)),
                          stackItem w ''stderr'' (Str (rr_StdErr destroyResult)),
                          stackItem w ''summary''
                            (GoMap [(''message'', Str (rr_Message destroyResult)),
                                    (''result'', Str (rr_Result destroyResult))])]
             in fst (PulumiDynamicDestroy w goBytes) = createOkResponse w items
                \<and> map OutputName items = [''stdout'', ''stderr'', ''summary'']))
         \<and> (w_selectStack w = None \<and> w_outputs w = Inr stackOutputs \<longrightarrow>
            (let items = map (\<lambda>(name, v). stackItem w name (Other v)) (om_Entries stackOutputs)
             in fst (PulumiDynamicGetOutputs w goBytes) = createOkResponse w items
                \<and> map OutputName items = map fst (om_Entries stackOutputs)))"
proof -
  have wd: "ensureWorkingDirectory w (ProjectName request) = None"
    using assms(2) by (simp add: ensureWorkingDirectory_def)
  have names: "map OutputName (map (\<lambda>(name, v). stackItem w name (Other v)) es) = map fst es" for es
    by (induction es) (auto simp: stackItem_def)
  show ?thesis
    using assms(1) wd names
    by (auto simp: PulumiDynamicPreview_def PulumiDynamicDeploy_def PulumiDynamicDestroy_def
          PulumiDynamicGetOutputs_def processPulumiRequest_def previewStack_def deployStack_def
          Let_def stackItem_def split: prod.splits)
qed

theorem operation_output_items_witness:
  "fst (PulumiDynamicPreview exampleWorld []) = frame (map of_char ''stdoutstderrsummary'')
   \<and> fst (PulumiDynamicDeploy exampleWorld []) = frame (map of_char ''stdoutstderroutputssummary'')
   \<and> fst (PulumiDynamicDestroy exampleWorld []) = frame (map of_char ''stdoutstderrsummary'')
   \<and> fst (PulumiDynamicGetOutputs exampleWorld []) = frame (map of_char ''endpoint'')"
  using operation_output_items
    [where w = exampleWorld and goBytes = "[]"
       and request = "\<lparr> ProjectName = ''p'', StackName = ''s'', Resources = [] \<rparr>"
       and preview = "\<lparr> pv_StdOut = ''out'', pv_StdErr = [], pv_ChangeSummary = ''map[]'' \<rparr>"
       and upResult = "\<lparr> rr_StdOut = ''out'', rr_StdErr = [], rr_Message = [], rr_Result = ''succeeded'' \<rparr>"
       and stackOutputs = "\<lparr> om_Self = ''map[endpoint:{x false}]'', om_Entries = [(''endpoint'', ''{x false}'')] \<rparr>"
       and destroyResult = "\<lparr> rr_StdOut = ''out'', rr_StdErr = [], rr_Message = [], rr_Result = ''succeeded'' \<rparr>"]
  by (simp add: exampleWorld_def createOkResponse_def okResponse_def stackItem_def Let_def)

text \<open>
  C7 as stated fails for GetOutputs: with one exported output \<open>endpoint\<close> the response
  holds the single item \<open>endpoint\<close>, and no item \<open>stdout\<close>, \<open>stderr\<close> or \<open>summary\<close>.
\<close>

theorem getOutputs_items_counterexample:
  "PulumiDynamicGetOutputs exampleWorld []
     = (createOkResponse exampleWorld
          [\<lparr> ResourceName = ''stack'', OutputName = ''endpoint'',
             Value = StringValue ''{x false}alue'' \<rparr>], [])
   \<and> createOkResponse exampleWorld
          [\<lparr> ResourceName = ''stack'', OutputName = ''endpoint'',
             Value = StringValue ''{x false}alue'' \<rparr>] = frame (map of_char ''endpoint'')
   \<and> map OutputName [\<lparr> ResourceName = ''stack'', OutputName = ''endpoint'',
             Value = StringValue ''{x false}alue'' \<rparr>] \<noteq> [''stdout'', ''stderr'', ''summary'']"
  by (simp add: PulumiDynamicGetOutputs_def exampleWorld_def ensureWorkingDirectory_def
        stackItem_def createOkResponse_def okResponse_def)

section \<open>The deployment program\<close>

lemma matchAt_dotless:
  "matchAt s = Some (n, p, rest) \<Longrightarrow> CHR ''.'' \<notin> set n"
  by (auto simp: matchAt_def Let_def split: list.splits if_splits dest: set_takeWhileD)

lemma FindAll_dotless:
  "token \<in> set (FindAllStringSubmatch s) \<Longrightarrow> CHR ''.'' \<notin> set (fst token)"
proof (induction s arbitrary: token rule: FindAllStringSubmatch.induct)
  case 1
  then show ?case by simp
next
  case (2 c cs)
  show ?case
  proof (cases "matchAt (c # cs)")
    case None
    with 2 show ?thesis by simp
  next
    case (Some m)
    obtain n p rest where m: "m = (n, p, rest)" by (cases m) auto
    have n: "CHR ''.'' \<notin> set n" using Some m matchAt_dotless by blast
    have "token = (n, p) \<or> token \<in> set (FindAllStringSubmatch rest)"
      using "2.prems" Some m by simp
    then show ?thesis
    proof
      assume "token = (n, p)"
      with n show ?thesis by simp
    next
      assume "token \<in> set (FindAllStringSubmatch rest)"
      then show ?thesis using "2.IH"(2) [OF Some _ _, of n "(p, rest)" p rest] m by simp
    qed
  qed
qed

lemma resolveMatch_no_panic:
  assumes "\<And>k out. outs k = Some out \<Longrightarrow> CHR ''.'' \<notin> set k \<Longrightarrow> \<exists>m. out = MapOutput m"
    and "CHR ''.'' \<notin> set (fst token)"
  shows "resolveMatch outs token \<noteq> Some (Inl p)"
proof (cases "outs (fst token)")
  case None
  then show ?thesis
    by (auto simp: resolveMatch_def Let_def split: option.splits)
next
  case (Some out)
  with assms obtain m where "out = MapOutput m" by blast
  with Some show ?thesis
    by (auto simp: resolveMatch_def Let_def split: option.splits)
qed

lemma resolveMatches_no_panic:
  assumes "\<And>k out. outs k = Some out \<Longrightarrow> CHR ''.'' \<notin> set k \<Longrightarrow> \<exists>m. out = MapOutput m"
    and "\<forall>token \<in> set tokens. CHR ''.'' \<notin> set (fst token)"
  shows "resolveMatches outs tokens \<noteq> Some (Inl p)"
  using assms(2)
proof (induction tokens)
  case Nil
  then show ?case by simp
next
  case (Cons t ts)
  have "resolveMatch outs t \<noteq> Some (Inl p)"
    using Cons.prems by (intro resolveMatch_no_panic assms(1)) auto
  with Cons show ?case
    by (auto split: option.splits)
qed

lemma resolveSlice_total:
  "\<forall>v \<in> set vs. \<exists>r. resolveValue v outs = Inr r \<Longrightarrow> \<exists>rs. resolveSlice vs outs = Inr rs"
  by (induction vs) auto

lemma resolveFields_total:
  "\<forall>kv \<in> set fs. \<exists>r. resolveValue (snd kv) outs = Inr r \<Longrightarrow> \<exists>rs. resolveFields fs outs = Inr rs"
  by (induction fs) auto

lemma resolveValue_no_panic:
  assumes "\<And>k out. outs k = Some out \<Longrightarrow> CHR ''.'' \<notin> set k \<Longrightarrow> \<exists>m. out = MapOutput m"
  shows "\<exists>r. resolveValue v outs = Inr r"
proof (induction v)
  case (Str s)
  have "resolveMatches outs (FindAllStringSubmatch s) \<noteq> Some (Inl p)" for p
    using FindAll_dotless by (intro resolveMatches_no_panic assms) auto
  then show ?case
    by (auto simp: Let_def split: option.splits sum.splits)
next
  case (Slice vs)
  then have "\<exists>rs. resolveSlice vs outs = Inr rs" by (intro resolveSlice_total) auto
  then show ?case by auto
next
  case (GoMap fs)
  then have "\<exists>rs. resolveFields fs outs = Inr rs" by (intro resolveFields_total) (auto simp: snds.simps)
  then show ?case by auto
qed simp_all

lemma emitted_append: "emitted (a @ b) = emitted a @ emitted b"
  by (induction a rule: emitted.induct) simp_all

lemma emitted_warnings: "emitted (snd (dependsOnLoop rmap n ds)) = []"
  by (induction ds) (auto split: prod.splits option.splits)

lemma resolveReferences_total:
  "plainKeysHoldMaps outs \<Longrightarrow> \<exists>resolved. resolveReferences properties outs = Inr resolved"
  unfolding resolveReferences_def
  by (intro resolveFields_total ballI resolveValue_no_panic) blast

lemma stored_keep_plainKeysHoldMaps:
  "plainKeysHoldMaps outs \<Longrightarrow>
   plainKeysHoldMaps (outs(name @ ''.id'' \<mapsto> IDOutput rid, name \<mapsto> MapOutput bag))"
  by auto

lemma loopBody_registered:
  assumes "plainKeysHoldMaps (resourceOutputs st)"
  shows "\<exists>acts. loopBody ctx (Inr rid) st res =
           (acts, Inr \<lparr> resourceMap = (resourceMap st)(res_Name res \<mapsto> rid),
                        resourceOutputs = (resourceOutputs st)
                          (res_Name res @ ''.id'' \<mapsto> IDOutput rid,
                           res_Name res \<mapsto> MapOutput (AllApply rid (res_Properties res))) \<rparr>)
         \<and> emitted acts = [ResourcePre (metadata ctx res) False, ResourceOutputs (metadata ctx res) False]"
proof -
  obtain resolved where
    "resolveReferences (map (map_prod id convertProtoValueToInterface) (res_Properties res))
       (resourceOutputs st) = Inr resolved"
    using resolveReferences_total [OF assms] by blast
  then show ?thesis
    using emitted_warnings [of "resourceMap st" "res_Name res" "res_DependsOn res"]
    by (auto simp: loopBody_def Let_def emitted_append split: prod.splits)
qed

lemma loopBody_failed:
  assumes "plainKeysHoldMaps (resourceOutputs st)"
  shows "\<exists>acts. loopBody ctx (Inl err) st res = (acts, Inl (ReturnedError err))
         \<and> emitted acts = [ResourcePre (metadata ctx res) False, ResourceFailed (metadata ctx res) 1 0]"
proof -
  obtain resolved where
    "resolveReferences (map (map_prod id convertProtoValueToInterface) (res_Properties res))
       (resourceOutputs st) = Inr resolved"
    using resolveReferences_total [OF assms] by blast
  then show ?thesis
    using emitted_warnings [of "resourceMap st" "res_Name res" "res_DependsOn res"]
    by (auto simp: loopBody_def Let_def emitted_append split: prod.splits)
qed

lemma programLoop_registered:
  assumes "plainKeysHoldMaps (resourceOutputs st)"
    and "\<forall>j < length rs. \<exists>rid. engine (i + j) = Inr rid"
  shows "\<exists>acts st'. programLoop ctx engine i st rs = (acts, Inr st')
           \<and> plainKeysHoldMaps (resourceOutputs st')
           \<and> emitted acts = concat (map (\<lambda>res. [ResourcePre (metadata ctx res) False,
                                                ResourceOutputs (metadata ctx res) False]) rs)
           \<and> dom (resourceOutputs st') \<subseteq>
               dom (resourceOutputs st) \<union> (\<Union>res \<in> set rs. {res_Name res, res_Name res @ ''.id''})"
  using assms
proof (induction rs arbitrary: i st)
  case Nil
  then show ?case by simp
next
  case (Cons res rs)
  from Cons.prems(2) obtain rid where rid: "engine i = Inr rid" by force
  let ?st = "\<lparr> resourceMap = (resourceMap st)(res_Name res \<mapsto> rid),
               resourceOutputs = (resourceOutputs st)
                 (res_Name res @ ''.id'' \<mapsto> IDOutput rid,
                  res_Name res \<mapsto> MapOutput (AllApply rid (res_Properties res))) \<rparr>"
  obtain acts where body: "loopBody ctx (Inr rid) st res = (acts, Inr ?st)"
    and ev: "emitted acts = [ResourcePre (metadata ctx res) False, ResourceOutputs (metadata ctx res) False]"
    using loopBody_registered [OF Cons.prems(1), of ctx rid res] by blast
  have inv: "plainKeysHoldMaps (resourceOutputs ?st)"
    using Cons.prems(1) by auto
  have later: "\<forall>j < length rs. \<exists>rid. engine (Suc i + j) = Inr rid"
    using Cons.prems(2) by force
  obtain acts' st' where rest: "programLoop ctx engine (Suc i) ?st rs = (acts', Inr st')"
    and inv': "plainKeysHoldMaps (resourceOutputs st')"
    and ev': "emitted acts' = concat (map (\<lambda>res. [ResourcePre (metadata ctx res) False,
                                                ResourceOutputs (metadata ctx res) False]) rs)"
    and keys: "dom (resourceOutputs st') \<subseteq>
               dom (resourceOutputs ?st) \<union> (\<Union>res \<in> set rs. {res_Name res, res_Name res @ ''.id''})"
    using Cons.IH [OF inv later] by blast
  have "programLoop ctx engine i st (res # rs) = (acts @ acts', Inr st')"
    using rid body rest by simp
  moreover have "dom (resourceOutputs st') \<subseteq>
      dom (resourceOutputs st) \<union> (\<Union>r \<in> set (res # rs). {res_Name r, res_Name r @ ''.id''})"
    using keys by auto
  ultimately show ?case using inv' ev ev' by (simp add: emitted_append)
qed

lemma programLoop_append:
  "programLoop ctx engine i st (xs @ ys) =
     (case programLoop ctx engine i st xs of
        (acts, Inl f) \<Rightarrow> (acts, Inl f)
      | (acts, Inr st') \<Rightarrow>
          (let (acts', r) = programLoop ctx engine (i + length xs) st' ys in (acts @ acts', r)))"
proof (induction xs arbitrary: i st)
  case Nil
  then show ?case by (simp split: prod.splits)
next
  case (Cons x xs)
  then show ?case
    by (auto split: prod.splits sum.splits)
qed

lemma programLoop_no_panic:
  "plainKeysHoldMaps (resourceOutputs st) \<Longrightarrow> snd (programLoop ctx engine i st rs) \<noteq> Inl (Panic p)"
proof (induction rs arbitrary: i st)
  case Nil
  then show ?case by simp
next
  case (Cons res rs)
  show ?case
  proof (cases "engine i")
    case (Inl err)
    then show ?thesis using loopBody_failed [OF Cons.prems, of ctx err res] by auto
  next
    case (Inr rid)
    let ?st = "\<lparr> resourceMap = (resourceMap st)(res_Name res \<mapsto> rid),
                 resourceOutputs = (resourceOutputs st)
                   (res_Name res @ ''.id'' \<mapsto> IDOutput rid,
                    res_Name res \<mapsto> MapOutput (AllApply rid (res_Properties res))) \<rparr>"
    obtain acts where body: "loopBody ctx (Inr rid) st res = (acts, Inr ?st)"
      using loopBody_registered [OF Cons.prems, of ctx rid res] by blast
    have inv: "plainKeysHoldMaps (resourceOutputs ?st)"
      using Cons.prems by auto
    show ?thesis using Cons.IH [OF inv, of "Suc i"] Inr body
      by (auto split: prod.splits)
  qed
qed

lemma resolveValue_unresolved:
  "\<forall>token \<in> set (FindAllStringSubmatch s). \<not> spec_token_resolves outs token \<Longrightarrow>
   resolveValue (Str s) outs = Inr (Str s)"
  using resolveMatches_None_iff [of outs "FindAllStringSubmatch s"] by (simp add: Let_def)

lemma key_of_earlier:
  assumes n: "CHR ''.'' \<notin> set n"
    and key: "n @ ''.'' @ x = name \<or> n @ ''.'' @ x = name @ ''.id'' \<or> n = name \<or> n = name @ ''.id''"
  shows "name = n \<or> prefix (n @ ''.'') name"
proof -
  consider "n @ ''.'' @ x = name" | "n @ ''.'' @ x = name @ ''.id''" | "n = name" | "n = name @ ''.id''"
    using key by blast
  then show ?thesis
  proof cases
    case 1
    then have "name = (n @ ''.'') @ x" by simp
    then show ?thesis by (metis prefixI)
  next
    case 2
    then have "n @ (''.'' @ x) = name @ ''.id''" by simp
    then obtain us where "(n = name @ us \<and> us @ (''.'' @ x) = ''.id'') \<or> (n @ us = name \<and> ''.'' @ x = us @ ''.id'')"
      by (auto simp: append_eq_append_conv2)
    then show ?thesis
    proof
      assume a: "n = name @ us \<and> us @ (''.'' @ x) = ''.id''"
      show ?thesis
      proof (cases us)
        case Nil
        with a show ?thesis by simp
      next
        case (Cons u us')
        with a have "u = CHR ''.''" by simp
        with a Cons n show ?thesis by simp
      qed
    next
      assume a: "n @ us = name \<and> ''.'' @ x = us @ ''.id''"
      show ?thesis
      proof (cases us)
        case Nil
        with a show ?thesis by simp
      next
        case (Cons u us')
        with a have "u = CHR ''.''" by simp
        with a Cons have "name = (n @ ''.'') @ us'" by simp
        then show ?thesis by (metis prefixI)
      qed
    qed
  next
    case 3
    then show ?thesis by simp
  next
    case 4
    with n show ?thesis by simp
  qed
qed

lemma token_unresolved:
  assumes dom: "dom outs \<subseteq> (\<Union>res \<in> set earlier. {res_Name res, res_Name res @ ''.id''})"
    and n: "CHR ''.'' \<notin> set (fst token)"
    and names: "\<forall>res \<in> set earlier. res_Name res \<noteq> fst token \<and> \<not> prefix (fst token @ ''.'') (res_Name res)"
  shows "\<not> spec_token_resolves outs token"
proof -
  have absent: "outs (fst token @ ''.'' @ x) = None" for x
  proof (rule ccontr)
    assume "outs (fst token @ ''.'' @ x) \<noteq> None"
    then have "fst token @ ''.'' @ x \<in> dom outs" by auto
    with dom obtain res where res: "res \<in> set earlier"
      and "fst token @ ''.'' @ x = res_Name res \<or> fst token @ ''.'' @ x = res_Name res @ ''.id''"
      by blast
    then have "res_Name res = fst token \<or> prefix (fst token @ ''.'') (res_Name res)"
      using key_of_earlier [OF n, of x "res_Name res"] by blast
    with names res show False by blast
  qed
  have plain: "outs (fst token) = None"
  proof (rule ccontr)
    assume "outs (fst token) \<noteq> None"
    then have "fst token \<in> dom outs" by auto
    with dom obtain res where res: "res \<in> set earlier"
      and "fst token = res_Name res \<or> fst token = res_Name res @ ''.id''"
      by blast
    then have "res_Name res = fst token \<or> prefix (fst token @ ''.'') (res_Name res)"
      using key_of_earlier [OF n, of "[]" "res_Name res"] by blast
    with names res show False by blast
  qed
  show ?thesis using absent plain by (simp add: spec_token_resolves_def Let_def)
qed

lemma resolveFields_member:
  "resolveFields fs outs = Inr rs \<Longrightarrow> kv \<in> set fs \<Longrightarrow> resolveValue (snd kv) outs = Inr r \<Longrightarrow>
   (fst kv, r) \<in> set rs"
  by (induction fs arbitrary: rs) (auto split: sum.splits)

lemma loopBody_call:
  assumes "resolveReferences (map (map_prod id convertProtoValueToInterface) (res_Properties res))
             (resourceOutputs st) = Inr resolved"
  shows "RegisterResource (res_Type res) (res_Name res)
           (map (map_prod id convertInterfaceToPulumiValue) resolved)
           (fst (dependsOnLoop (resourceMap st) (res_Name res) (res_DependsOn res)))
         \<in> set (fst (loopBody ctx answer st res))"
  using assms by (auto simp: loopBody_def Let_def split: prod.splits sum.splits)

lemma programLoop_Cons_actions:
  "set (fst (loopBody ctx (engine i) st res)) \<subseteq> set (fst (programLoop ctx engine i st (res # rest)))"
  by (auto split: prod.splits sum.splits)

lemma initial_plainKeysHoldMaps: "plainKeysHoldMaps (resourceOutputs initialState)"
  by (simp add: initialState_def)

text \<open>
  C3. When the registration of the resource at index \<open>k\<close> fails and the earlier ones
  succeed, the program calls \<open>emitEvent\<close> with ResourcePre and ResourceOutputs for each
  index below \<open>k\<close>, then ResourcePre and ResourceFailed for index \<open>k\<close>, and with nothing
  else, and returns the error of the registration. When \<open>stack.Up\<close> (or
  \<open>stack.Preview\<close>) reports the failed program as an error, the operation answers with
  the failed response.
\<close>

theorem fail_fast:
  assumes k: "k < length (Resources request)"
    and fails: "w_engine w k = Inl err"
    and earlier: "\<forall>i < k. \<exists>rid. w_engine w i = Inr rid"
  shows "(let ctx = \<lparr> ctx_Stack = StackName request, ctx_Project = ProjectName request \<rparr>;
              trace = concat (map (\<lambda>res. [ResourcePre (metadata ctx res) False,
                                           ResourceOutputs (metadata ctx res) False])
                                  (take k (Resources request)))
                      @ [ResourcePre (metadata ctx (Resources request ! k)) False,
                         ResourceFailed (metadata ctx (Resources request ! k)) 1 0]
          in emitted (fst (createDeploymentProgram (Resources request) ctx (w_engine w))) = trace
             \<and> snd (createDeploymentProgram (Resources request) ctx (w_engine w))
                 = Inl (ReturnedError err)
             \<and> (\<forall>upErr. w_up w (Inl (ReturnedError err)) = Inl upErr \<longrightarrow>
                   deployStack w request = (createFailedResponse w upErr, trace)
                   \<and> Success (failedResponse upErr) = False)
             \<and> (\<forall>previewErr. w_preview w (Inl (ReturnedError err)) = Inl previewErr \<longrightarrow>
                   previewStack w request = (createFailedResponse w previewErr, trace)
                   \<and> Success (failedResponse previewErr) = False))"
proof -
  define ctx where "ctx = \<lparr> ctx_Stack = StackName request, ctx_Project = ProjectName request \<rparr>"
  define rs where "rs = Resources request"
  define engine where "engine = w_engine w"
  let ?pair = "\<lambda>res. [ResourcePre (metadata ctx res) False, ResourceOutputs (metadata ctx res) False]"
  have split: "rs = take k rs @ rs ! k # drop (Suc k) rs"
    using k by (simp add: rs_def id_take_nth_drop)
  have len: "length (take k rs) = k" using k by (simp add: rs_def)
  have "\<forall>j < length (take k rs). \<exists>rid. engine (0 + j) = Inr rid"
    using earlier len by (simp add: engine_def)
  then obtain acts st' where first: "programLoop ctx engine 0 initialState (take k rs) = (acts, Inr st')"
    and inv: "plainKeysHoldMaps (resourceOutputs st')"
    and ev: "emitted acts = concat (map ?pair (take k rs))"
    using programLoop_registered [OF initial_plainKeysHoldMaps, of "take k rs" engine 0 ctx] by blast
  obtain acts' where body: "loopBody ctx (Inl err) st' (rs ! k) = (acts', Inl (ReturnedError err))"
    and ev': "emitted acts' = [ResourcePre (metadata ctx (rs ! k)) False,
                               ResourceFailed (metadata ctx (rs ! k)) 1 0]"
    using loopBody_failed [OF inv, of ctx err "rs ! k"] by blast
  have "programLoop ctx engine k st' (rs ! k # drop (Suc k) rs) = (acts', Inl (ReturnedError err))"
    using body fails by (simp add: engine_def)
  then have "programLoop ctx engine 0 initialState (take k rs @ rs ! k # drop (Suc k) rs)
             = (acts @ acts', Inl (ReturnedError err))"
    using first len by (simp add: programLoop_append)
  then have run: "createDeploymentProgram rs ctx engine = (acts @ acts', Inl (ReturnedError err))"
    using split by (simp add: createDeploymentProgram_def)
  have trace: "emitted (acts @ acts') = concat (map ?pair (take k rs))
       @ [ResourcePre (metadata ctx (rs ! k)) False, ResourceFailed (metadata ctx (rs ! k)) 1 0]"
    using ev ev' by (simp add: emitted_append)
  have prog: "runProgram w request = (acts @ acts', Inl (ReturnedError err))"
    using run by (simp add: runProgram_def rs_def ctx_def engine_def)
  have deploy: "deployStack w request = (createFailedResponse w upErr, emitted (acts @ acts'))"
    if "w_up w (Inl (ReturnedError err)) = Inl upErr" for upErr
    using prog that by (simp add: deployStack_def)
  have preview: "previewStack w request = (createFailedResponse w previewErr, emitted (acts @ acts'))"
    if "w_preview w (Inl (ReturnedError err)) = Inl previewErr" for previewErr
    using prog that by (simp add: previewStack_def)
  show ?thesis
    using run trace deploy preview unfolding rs_def ctx_def engine_def Let_def
    by (simp add: failedResponse_def)
qed

text \<open>
  Three resources, the second registration failing, and an engine that reports the
  failed program as a failed update.
\<close>

theorem fail_fast_witness:
  "deployStack
     (exampleWorld \<lparr> w_engine := (\<lambda>n. if n = 1 then Inl ''boom'' else Inr ''id1''),
                     w_up := (\<lambda>ending. Inl ''update failed''),
                     w_preview := (\<lambda>ending. Inl ''preview failed'') \<rparr>)
     \<lparr> ProjectName = ''p'', StackName = ''s'',
       Resources = [exampleResource ''a'' [], exampleResource ''b'' [], exampleResource ''c'' []] \<rparr>
   = (createFailedResponse
        (exampleWorld \<lparr> w_engine := (\<lambda>n. if n = 1 then Inl ''boom'' else Inr ''id1''),
                        w_up := (\<lambda>ending. Inl ''update failed''),
                     w_preview := (\<lambda>ending. Inl ''preview failed'') \<rparr>) ''update failed'',
      [ResourcePre (metadata \<lparr> ctx_Stack = ''s'', ctx_Project = ''p'' \<rparr> (exampleResource ''a'' [])) False,
       ResourceOutputs (metadata \<lparr> ctx_Stack = ''s'', ctx_Project = ''p'' \<rparr> (exampleResource ''a'' [])) False,
       ResourcePre (metadata \<lparr> ctx_Stack = ''s'', ctx_Project = ''p'' \<rparr> (exampleResource ''b'' [])) False,
       ResourceFailed (metadata \<lparr> ctx_Stack = ''s'', ctx_Project = ''p'' \<rparr> (exampleResource ''b'' [])) 1 0])"
  using fail_fast
    [of 1 "\<lparr> ProjectName = ''p'', StackName = ''s'',
       Resources = [exampleResource ''a'' [], exampleResource ''b'' [], exampleResource ''c'' []] \<rparr>"
       "exampleWorld \<lparr> w_engine := (\<lambda>n. if n = 1 then Inl ''boom'' else Inr ''id1''),
                        w_up := (\<lambda>ending. Inl ''update failed''),
                        w_preview := (\<lambda>ending. Inl ''preview failed'') \<rparr>"
       "''boom''"]
  by (simp add: Let_def)

text \<open>
  C10. After a successful registration the output stored under the resource's name
  resolves to a map whose keys are the keys of the input properties and \<open>id\<close>; \<open>id\<close>
  maps to the ID the engine gave, every other key to the converted input value; and
  the projection at path \<open>id\<close> yields that ID.
\<close>

theorem bag_of_registered_resource:
  assumes "loopBody ctx (Inr rid) st res = (acts, Inr st')"
  shows "(let whole = AllApply rid (res_Properties res); bag = awaitMap whole
          in resourceOutputs st' (res_Name res) = Some (MapOutput whole)
             \<and> await (MapOutput whole) = GoMap bag
             \<and> fst ` set bag = fst ` set (res_Properties res) \<union> {''id''}
             \<and> map_of bag ''id'' = Some (ID rid)
             \<and> (\<forall>key. key \<noteq> ''id'' \<longrightarrow>
                   map_of bag key
                   = map_option convertProtoValueToInterface (map_of (res_Properties res) key))
             \<and> await (AnyOutput whole ''id'') = ID rid)"
proof -
  have conv: "map_of (map (map_prod id f) xs) key = map_option f (map_of xs key)"
    for f :: "pbValue \<Rightarrow> any" and xs key
    by (induction xs) auto
  have keys: "fst ` set (map (map_prod id f) xs) = fst ` set xs"
    for f :: "pbValue \<Rightarrow> any" and xs :: "(string \<times> pbValue) list"
    by (induction xs) auto
  have stored: "resourceOutputs st' (res_Name res) = Some (MapOutput (AllApply rid (res_Properties res)))"
    using assms by (auto simp: loopBody_def Let_def split: sum.splits prod.splits)
  have id: "getNestedValue (awaitMap (AllApply rid (res_Properties res))) ''id'' = ID rid"
    by (simp add: getNestedValue_def stringsSplit_def update_conv')
  have dom: "fst ` set (awaitMap (AllApply rid (res_Properties res)))
             = fst ` set (res_Properties res) \<union> {''id''}"
    using keys [of convertProtoValueToInterface "res_Properties res"]
    by (simp add: dom_update image_image)
  have at_id: "map_of (awaitMap (AllApply rid (res_Properties res))) ''id'' = Some (ID rid)"
    by (simp add: update_conv')
  have others: "map_of (awaitMap (AllApply rid (res_Properties res))) key
                = map_option convertProtoValueToInterface (map_of (res_Properties res) key)"
    if "key \<noteq> ''id''" for key
    using that by (simp add: update_conv' conv)
  show ?thesis
    unfolding Let_def using stored id dom at_id others by simp
qed

theorem bag_of_registered_resource_witness:
  "awaitMap (AllApply ''id1'' [(''id'', StringValue ''mine''), (''size'', IntValue 3)])
     = [(''id'', ID ''id1''), (''size'', Int64 3)]
   \<and> await (AnyOutput (AllApply ''id1'' [(''id'', StringValue ''mine''), (''size'', IntValue 3)]) ''id'')
     = ID ''id1''"
  using bag_of_registered_resource
    [of "\<lparr> ctx_Stack = ''s'', ctx_Project = ''p'' \<rparr>" "''id1''" initialState
        "exampleResource ''r'' [(''id'', StringValue ''mine''), (''size'', IntValue 3)]"
        "fst (loopBody \<lparr> ctx_Stack = ''s'', ctx_Project = ''p'' \<rparr> (Inr ''id1'') initialState
               (exampleResource ''r'' [(''id'', StringValue ''mine''), (''size'', IntValue 3)]))"
        "projr (snd (loopBody \<lparr> ctx_Stack = ''s'', ctx_Project = ''p'' \<rparr> (Inr ''id1'') initialState
               (exampleResource ''r'' [(''id'', StringValue ''mine''), (''size'', IntValue 3)])))"]
  by (simp add: loopBody_def resolveReferences_def exampleResource_def initialState_def Let_def
        getNestedValue_def stringsSplit_def)

text \<open>
  C5, as the code has it. A string property all of whose tokens name a resource \<open>n\<close>
  such that no resource registered earlier is named \<open>n\<close> or has a name beginning with
  \<open>n\<close> and a dot (as is the case when \<open>n\<close> was never registered or is registered
  later, names holding no dot) reaches \<open>ctx.RegisterResource\<close> as the literal string.
  And no run of the program panics in the resolver, whatever the resources and the
  answers of the engine.
\<close>

theorem unresolved_reference_left_literal:
  assumes registered: "\<forall>i < length earlier. \<exists>rid. engine i = Inr rid"
    and property: "(key, StringValue s) \<in> set (res_Properties referring)"
    and tokens: "\<forall>token \<in> set (FindAllStringSubmatch s). \<forall>res \<in> set earlier.
                   res_Name res \<noteq> fst token \<and> \<not> prefix (fst token @ ''.'') (res_Name res)"
  shows "(\<exists>inputs deps.
            RegisterResource (res_Type referring) (res_Name referring) inputs deps
              \<in> set (fst (createDeploymentProgram (earlier @ referring # later) ctx engine))
            \<and> (key, PString s) \<in> set inputs)
         \<and> (\<forall>resources engine' p.
               snd (createDeploymentProgram resources ctx engine') \<noteq> Inl (Panic p))"
proof -
  have "\<forall>j < length earlier. \<exists>rid. engine (0 + j) = Inr rid"
    using registered by simp
  then obtain acts st' where first: "programLoop ctx engine 0 initialState earlier = (acts, Inr st')"
    and inv: "plainKeysHoldMaps (resourceOutputs st')"
    and keys: "dom (resourceOutputs st') \<subseteq>
        dom (resourceOutputs initialState) \<union> (\<Union>res \<in> set earlier. {res_Name res, res_Name res @ ''.id''})"
    using programLoop_registered [OF initial_plainKeysHoldMaps, of earlier engine 0 ctx] by blast
  have dom: "dom (resourceOutputs st') \<subseteq> (\<Union>res \<in> set earlier. {res_Name res, res_Name res @ ''.id''})"
    using keys by (simp add: initialState_def)
  have "\<not> spec_token_resolves (resourceOutputs st') token"
    if "token \<in> set (FindAllStringSubmatch s)" for token
    using that tokens FindAll_dotless [OF that] by (intro token_unresolved [OF dom]) auto
  then have literal: "resolveValue (Str s) (resourceOutputs st') = Inr (Str s)"
    by (intro resolveValue_unresolved) blast
  let ?props = "map (map_prod id convertProtoValueToInterface) (res_Properties referring)"
  obtain resolved where resolved: "resolveReferences ?props (resourceOutputs st') = Inr resolved"
    using resolveReferences_total [OF inv] by blast
  have "(key, Str s) \<in> set ?props"
    using property by force
  then have "(key, Str s) \<in> set resolved"
    using resolveFields_member [of ?props "resourceOutputs st'" resolved "(key, Str s)" "Str s"]
      resolved literal by (simp add: resolveReferences_def)
  then have input: "(key, PString s) \<in> set (map (map_prod id convertInterfaceToPulumiValue) resolved)"
    by force
  let ?call = "RegisterResource (res_Type referring) (res_Name referring)
                 (map (map_prod id convertInterfaceToPulumiValue) resolved)
                 (fst (dependsOnLoop (resourceMap st') (res_Name referring) (res_DependsOn referring)))"
  have "?call \<in> set (fst (programLoop ctx engine (length earlier) st' (referring # later)))"
    using loopBody_call [OF resolved] programLoop_Cons_actions by blast
  then have "?call \<in> set (fst (createDeploymentProgram (earlier @ referring # later) ctx engine))"
    using first by (auto simp: createDeploymentProgram_def programLoop_append split: prod.splits)
  moreover have "snd (createDeploymentProgram resources ctx engine') \<noteq> Inl (Panic p)"
    for resources engine' p
    unfolding createDeploymentProgram_def
    by (rule programLoop_no_panic [OF initial_plainKeysHoldMaps])
  ultimately show ?thesis using input by blast
qed

theorem unresolved_reference_left_literal_witness:
  "FindAllStringSubmatch ''${x.id}'' = [(''x'', ''id'')]
   \<and> RegisterResource ''example:index:Thing'' ''b'' [(''p'', PString ''${x.id}'')] []
       \<in> set (fst (createDeploymentProgram
             [exampleResource ''a'' [], exampleResource ''b'' [(''p'', StringValue ''${x.id}'')],
              exampleResource ''x'' []]
             \<lparr> ctx_Stack = ''s'', ctx_Project = ''p'' \<rparr> (\<lambda>n. Inr ''id1'')))"
  using unresolved_reference_left_literal
    [of "[exampleResource ''a'' []]" "\<lambda>n. Inr ''id1''" "''p''" "''${x.id}''"
        "exampleResource ''b'' [(''p'', StringValue ''${x.id}'')]" "[exampleResource ''x'' []]"
        "\<lparr> ctx_Stack = ''s'', ctx_Project = ''p'' \<rparr>"]
  by (simp add: createDeploymentProgram_def loopBody_def resolveReferences_def resolveMatch_def
        matchAt_def exampleResource_def initialState_def stringsSplit_def Let_def)

text \<open>
  C5 as stated fails when the string holds a second token that resolves: \<open>x\<close> is never
  registered, yet the value \<open>${x.id}${a.id}\<close> is replaced by the ID output of \<open>a\<close>.
\<close>

theorem multiple_tokens_counterexample:
  "FindAllStringSubmatch ''${x.id}${a.id}'' = [(''x'', ''id''), (''a'', ''id'')]
   \<and> RegisterResource ''example:index:Thing'' ''b'' [(''p'', POutput (IDOutput ''id1''))] []
       \<in> set (fst (createDeploymentProgram
             [exampleResource ''a'' [], exampleResource ''b'' [(''p'', StringValue ''${x.id}${a.id}'')]]
             \<lparr> ctx_Stack = ''s'', ctx_Project = ''p'' \<rparr> (\<lambda>n. Inr ''id1'')))"
  by (simp add: createDeploymentProgram_def loopBody_def resolveReferences_def resolveMatch_def
        matchAt_def exampleResource_def initialState_def stringsSplit_def Let_def)

end
